theory Spec2Isabelle
  imports Main "HOL-Library.Sublist"
begin

section \<open>Strings\<close>

text \<open>
  A JavaScript string is a sequence of UTF-16 code units. The page text that the server
  parses may hold any code unit, and the regular expression class \<open>\s\<close> matches code
  units beyond Latin-1, so a string is a list of code units (natural numbers). An ASCII
  literal \<open>"abc"\<close> of the source is written \<open>js ''abc''\<close>; a literal with Chinese
  characters is written as the list of its code units.
\<close>

type_synonym jsstring = "nat list"

definition js :: "string \<Rightarrow> jsstring" where
  "js s = map of_char s"

text \<open>\<open>text.includes(p)\<close>: \<open>p\<close> occurs in \<open>text\<close> as a contiguous run.\<close>

definition str_includes :: "jsstring \<Rightarrow> jsstring \<Rightarrow> bool" where
  "str_includes text p = sublist p text"

section \<open>The schema\<close>

text \<open>
  \<open>PaymentLink\<close> is the row type of the table \<open>payment_links\<close>. The field \<open>id\<close> of the
  source is \<open>link_id\<close> here (\<open>id\<close> is the identity function of HOL). Nullable text columns
  are options; \<open>lastChecked\<close> is a point in time, in milliseconds.
\<close>

record PaymentLink =
  link_id :: int
  userId :: int
  url :: jsstring
  amount :: int
  status :: jsstring
  errorCode :: "jsstring option"
  lastChecked :: nat
  transactionNo :: "jsstring option"
  amountAED :: "jsstring option"
  archived :: bool

record InsertPaymentLink =
  ins_url :: jsstring
  ins_amount :: int

section \<open>Errors\<close>

text \<open>
  \<open>AppError\<close> carries a message, an HTTP status code (500 unless given) and an optional
  code; \<open>name\<close> is the name its constructor sets, which tells the subclasses apart.
  \<open>PaymentLinkError\<close> is an \<open>AppError\<close> with status code 400. What a \<open>throw\<close> of the
  source raises is a value of \<open>thrown\<close>: an \<open>AppError\<close> (or subclass), a plain \<open>Error\<close>
  with its message, or any other value.
\<close>

record AppError =
  name :: jsstring
  message :: jsstring
  statusCode :: nat
  code :: "jsstring option"

definition PaymentLinkError :: "jsstring \<Rightarrow> jsstring \<Rightarrow> AppError" where
  "PaymentLinkError m c =
     \<lparr>name = js ''PaymentLinkError'', message = m, statusCode = 400, code = Some c\<rparr>"

datatype thrown = AppErr AppError | PlainError jsstring | OtherValue

definition handleError :: "thrown \<Rightarrow> AppError" where
  "handleError e =
     (case e of
        AppErr a \<Rightarrow> a
      | PlainError m \<Rightarrow> \<lparr>name = js ''AppError'', message = m, statusCode = 500, code = None\<rparr>
      | OtherValue \<Rightarrow>
          \<lparr>name = js ''AppError'', message = js ''An unexpected error occurred'',
           statusCode = 500, code = None\<rparr>)"

section \<open>Storage: \<open>MemStorage\<close>\<close>

text \<open>
  \<open>paymentLinks\<close> is a JavaScript \<open>Map\<close> from link ids to links. A \<open>Map\<close> iterates in
  insertion order, \<open>set\<close> on a key that is present keeps its place, and
  \<open>getPaymentLinks\<close> returns the values in that order, so the map is an association
  list. The user tables and the session store play no part in the operations on links
  and are left out. \<open>new Date()\<close> is the argument \<open>now\<close>.
\<close>

record MemStorage =
  paymentLinks :: "(int \<times> PaymentLink) list"
  currentLinkId :: int

definition map_get :: "(int \<times> PaymentLink) list \<Rightarrow> int \<Rightarrow> PaymentLink option" where
  "map_get m k = map_of m k"

fun map_set :: "(int \<times> PaymentLink) list \<Rightarrow> int \<Rightarrow> PaymentLink \<Rightarrow> (int \<times> PaymentLink) list" where
  "map_set [] k v = [(k, v)]"
| "map_set (p # ps) k v = (if fst p = k then (k, v) # ps else p # map_set ps k v)"

definition map_delete :: "(int \<times> PaymentLink) list \<Rightarrow> int \<Rightarrow> (int \<times> PaymentLink) list" where
  "map_delete m k = filter (\<lambda>p. fst p \<noteq> k) m"

definition MemStorage_new :: MemStorage where
  "MemStorage_new = \<lparr>paymentLinks = [], currentLinkId = 1\<rparr>"

definition getPaymentLinks :: "MemStorage \<Rightarrow> int \<Rightarrow> PaymentLink list" where
  "getPaymentLinks st uid = filter (\<lambda>link. userId link = uid) (map snd (paymentLinks st))"

definition createPaymentLink ::
  "MemStorage \<Rightarrow> nat \<Rightarrow> int \<Rightarrow> InsertPaymentLink \<Rightarrow> MemStorage \<times> PaymentLink" where
  "createPaymentLink st now uid link =
     (let i = currentLinkId st;
          paymentLink = \<lparr>link_id = i, userId = uid, url = ins_url link,
            amount = ins_amount link, status = js ''active'', errorCode = None,
            lastChecked = now, transactionNo = None, amountAED = None, archived = False\<rparr>
      in (st\<lparr>paymentLinks := map_set (paymentLinks st) i paymentLink,
              currentLinkId := i + 1\<rparr>, paymentLink))"

definition deletePaymentLink :: "MemStorage \<Rightarrow> int \<Rightarrow> int \<Rightarrow> thrown + MemStorage" where
  "deletePaymentLink st i uid =
     (case map_get (paymentLinks st) i of
        None \<Rightarrow> Inl (PlainError (js ''Payment link not found or unauthorized''))
      | Some link \<Rightarrow>
          if userId link \<noteq> uid
          then Inl (PlainError (js ''Payment link not found or unauthorized''))
          else Inr (st\<lparr>paymentLinks := map_delete (paymentLinks st) i\<rparr>))"

text \<open>
  The optional arguments of \<open>updatePaymentLinkStatus\<close> are \<open>string | null | undefined\<close>;
  \<open>??\<close> treats \<open>null\<close> and \<open>undefined\<close> alike, so both are \<open>None\<close>.
  \<open>a ?? b\<close> is \<open>a\<close> unless \<open>a\<close> is \<open>None\<close>.
\<close>

definition nullish :: "'a option \<Rightarrow> 'a option \<Rightarrow> 'a option" where
  "nullish a b = (case a of Some x \<Rightarrow> Some x | None \<Rightarrow> b)"

definition updatePaymentLinkStatus ::
  "MemStorage \<Rightarrow> nat \<Rightarrow> int \<Rightarrow> jsstring \<Rightarrow> jsstring option \<Rightarrow> jsstring option \<Rightarrow>
   jsstring option \<Rightarrow> thrown + MemStorage \<times> PaymentLink" where
  "updatePaymentLinkStatus st now i status' errorCode' transactionNo' amountAED' =
     (case map_get (paymentLinks st) i of
        None \<Rightarrow> Inl (PlainError (js ''Payment link not found''))
      | Some link \<Rightarrow>
          (let updated = link\<lparr>status := status',
                 errorCode := nullish errorCode' None,
                 lastChecked := now,
                 transactionNo := nullish transactionNo' (transactionNo link),
                 amountAED := nullish amountAED' (amountAED link)\<rparr>
           in Inr (st\<lparr>paymentLinks := map_set (paymentLinks st) i updated\<rparr>, updated)))"

definition updatePaymentLinkUrl ::
  "MemStorage \<Rightarrow> int \<Rightarrow> jsstring \<Rightarrow> thrown + MemStorage \<times> PaymentLink" where
  "updatePaymentLinkUrl st i url' =
     (case map_get (paymentLinks st) i of
        None \<Rightarrow> Inl (PlainError (js ''Payment link not found''))
      | Some link \<Rightarrow>
          (let updated = link\<lparr>url := url'\<rparr>
           in Inr (st\<lparr>paymentLinks := map_set (paymentLinks st) i updated\<rparr>, updated)))"

definition archivePaymentLink ::
  "MemStorage \<Rightarrow> int \<Rightarrow> int \<Rightarrow> thrown + MemStorage \<times> PaymentLink" where
  "archivePaymentLink st i uid =
     (case map_get (paymentLinks st) i of
        None \<Rightarrow> Inl (PlainError (js ''Payment link not found or unauthorized''))
      | Some link \<Rightarrow>
          if userId link \<noteq> uid
          then Inl (PlainError (js ''Payment link not found or unauthorized''))
          else (let updated = link\<lparr>archived := True\<rparr>
                in Inr (st\<lparr>paymentLinks := map_set (paymentLinks st) i updated\<rparr>, updated)))"

section \<open>The probe: \<open>checkPaymentPage\<close>\<close>

subsection \<open>Regular expressions\<close>

text \<open>
  The two patterns of \<open>checkPaymentPage\<close> are sequences of literal strings and of
  greedy repetitions of a character class, one of them a capture group. \<open>rx_match\<close>
  is the backtracking matcher of such a sequence at the start of a string: a repetition
  takes as many code units as it can and gives them back one by one (down to its
  minimum) until the rest of the pattern matches. \<open>Str l\<close> is the literal \<open>l\<close>;
  \<open>Rep P lo cap\<close> is the class \<open>P\<close> repeated \<open>lo\<close> times or more, a capture group when
  \<open>cap\<close> holds. The result is the list of captures, in order.
  \<open>regex_search\<close> is \<open>String.prototype.match\<close> without the \<open>g\<close> flag: the match at
  the leftmost start position.
\<close>

datatype atom =
  Str jsstring
| Rep "nat \<Rightarrow> bool" nat bool

fun strip_prefix :: "jsstring \<Rightarrow> jsstring \<Rightarrow> jsstring option" where
  "strip_prefix [] s = Some s"
| "strip_prefix (p # ps) [] = None"
| "strip_prefix (p # ps) (c # cs) = (if p = c then strip_prefix ps cs else None)"

fun first_some :: "(nat \<Rightarrow> 'a option) \<Rightarrow> nat \<Rightarrow> nat \<Rightarrow> 'a option" where
  "first_some f lo 0 = (if lo = 0 then f 0 else None)"
| "first_some f lo (Suc k) =
     (if Suc k < lo then None
      else (case f (Suc k) of Some r \<Rightarrow> Some r | None \<Rightarrow> first_some f lo k))"

fun rx_match :: "atom list \<Rightarrow> jsstring \<Rightarrow> jsstring list option" where
  "rx_match [] s = Some []"
| "rx_match (Str l # as) s =
     (case strip_prefix l s of None \<Rightarrow> None | Some r \<Rightarrow> rx_match as r)"
| "rx_match (Rep P lo cap # as) s =
     first_some
       (\<lambda>k. case rx_match as (drop k s) of
              None \<Rightarrow> None
            | Some caps \<Rightarrow> Some (if cap then take k s # caps else caps))
       lo (length (takeWhile P s))"

fun regex_search :: "atom list \<Rightarrow> jsstring \<Rightarrow> jsstring list option" where
  "regex_search rx [] = rx_match rx []"
| "regex_search rx (c # cs) =
     (case rx_match rx (c # cs) of Some r \<Rightarrow> Some r | None \<Rightarrow> regex_search rx cs)"

text \<open>
  \<open>\s\<close> is the white space and the line terminators of ECMAScript; \<open>\d\<close> is
  \<open>0\<close> to \<open>9\<close>; \<open>[\d,.]\<close> adds the comma (44) and the full stop (46).
\<close>

definition is_space :: "nat \<Rightarrow> bool" where
  "is_space c =
     (c = 9 \<or> c = 10 \<or> c = 11 \<or> c = 12 \<or> c = 13 \<or> c = 32 \<or> c = 160 \<or> c = 5760 \<or>
      (8192 \<le> c \<and> c \<le> 8202) \<or> c = 8232 \<or> c = 8233 \<or> c = 8239 \<or> c = 8287 \<or>
      c = 12288 \<or> c = 65279)"

definition is_digit :: "nat \<Rightarrow> bool" where
  "is_digit c = (48 \<le> c \<and> c \<le> 57)"

definition amount_char :: "nat \<Rightarrow> bool" where
  "amount_char c = (is_digit c \<or> c = 44 \<or> c = 46)"

text \<open>\<open>/SP Transaction No\s+(\d+)/\<close> and \<open>/Amount\s+([\d,.]+)\s*AED/\<close>.\<close>

definition transaction_rx :: "atom list" where
  "transaction_rx = [Str (js ''SP Transaction No''), Rep is_space 1 False, Rep is_digit 1 True]"

definition amount_rx :: "atom list" where
  "amount_rx =
     [Str (js ''Amount''), Rep is_space 1 False, Rep amount_char 1 True,
      Rep is_space 0 False, Str (js ''AED'')]"

text \<open>\<open>m?.[1]\<close>: the first capture of a match, \<open>undefined\<close> when there is no match.\<close>

definition group1 :: "jsstring list option \<Rightarrow> jsstring option" where
  "group1 m = (case m of None \<Rightarrow> None | Some caps \<Rightarrow> (case caps of [] \<Rightarrow> None | c # _ \<Rightarrow> Some c))"

subsection \<open>What the patterns match\<close>

text \<open>
  The two patterns, read as descriptions of the page. \<open>transaction_at s t\<close>: the string
  \<open>s\<close> starts with the label \<open>SP Transaction No\<close>, then at least one white space, then
  the digits \<open>t\<close>, and \<open>t\<close> is the whole run of digits there (no digit follows it).
  \<open>amount_at s t\<close>: \<open>s\<close> starts with \<open>Amount\<close>, then at least one white space, then
  the run \<open>t\<close> of digits, commas and full stops, then any white space, then \<open>AED\<close>.
  The token of a page is the one at the leftmost position where the pattern matches.
  These predicates describe the page; the probe does not use them. That the first
  capture of \<open>regex_search\<close> is this token, and no other string, is proved below.
\<close>

definition transaction_at :: "jsstring \<Rightarrow> jsstring \<Rightarrow> bool" where
  "transaction_at s t =
     (\<exists>sp post.
        s = js ''SP Transaction No'' @ sp @ t @ post \<and>
        sp \<noteq> [] \<and> list_all is_space sp \<and> t \<noteq> [] \<and> list_all is_digit t \<and>
        takeWhile is_digit post = [])"

definition amount_at :: "jsstring \<Rightarrow> jsstring \<Rightarrow> bool" where
  "amount_at s t =
     (\<exists>sp1 sp2 post.
        s = js ''Amount'' @ sp1 @ t @ sp2 @ js ''AED'' @ post \<and>
        sp1 \<noteq> [] \<and> list_all is_space sp1 \<and> t \<noteq> [] \<and> list_all amount_char t \<and>
        list_all is_space sp2)"

definition transaction_token :: "jsstring \<Rightarrow> jsstring \<Rightarrow> bool" where
  "transaction_token page t =
     (\<exists>n. transaction_at (drop n page) t \<and>
          (\<forall>k<n. \<not> (\<exists>t'. transaction_at (drop k page) t')))"

definition amount_token :: "jsstring \<Rightarrow> jsstring \<Rightarrow> bool" where
  "amount_token page t =
     (\<exists>n. amount_at (drop n page) t \<and>
          (\<forall>k<n. \<not> (\<exists>t'. amount_at (drop k page) t')))"

subsection \<open>The amount token in the words of the specification\<close>

text \<open>
  The specification describes the amount token as a decimal number, optionally
  comma-grouped, followed by the currency label. \<open>decimal_number\<close>: digits, which commas
  may group, optionally followed by a full stop and digits. \<open>spec_amount_token\<close>: such a
  number stands in the page before \<open>AED\<close>, white space allowed in between. This
  predicate follows the specification, not the code; it is compared with the code below.
\<close>

definition decimal_number :: "jsstring \<Rightarrow> bool" where
  "decimal_number t =
     (let whole = takeWhile (\<lambda>c. c \<noteq> 46) t;
          rest = dropWhile (\<lambda>c. c \<noteq> 46) t
      in whole \<noteq> [] \<and> list_all (\<lambda>c. is_digit c \<or> c = 44) whole \<and>
         is_digit (hd whole) \<and> is_digit (last whole) \<and>
         (rest = [] \<or> (tl rest \<noteq> [] \<and> list_all is_digit (tl rest))))"

definition spec_amount_token :: "jsstring \<Rightarrow> jsstring \<Rightarrow> bool" where
  "spec_amount_token page t =
     (\<exists>pre sp post.
        page = pre @ t @ sp @ js ''AED'' @ post \<and> decimal_number t \<and> list_all is_space sp)"

subsection \<open>Parsing the page\<close>

record check_result =
  isActive :: bool
  transactionNo_r :: "jsstring option"
  amountAED_r :: "jsstring option"
  errorCode_r :: "jsstring option"

text \<open>The failure marker, and the error code stored for it (four Chinese characters).\<close>

definition failure_marker :: jsstring where
  "failure_marker = js ''Sorry, something went wrong''"

definition generic_error_code :: jsstring where
  "generic_error_code = [0x53d1, 0x751f, 0x9519, 0x8bef]"

definition invalid_format_message :: jsstring where
  "invalid_format_message = [0x65e0, 0x6548, 0x7684, 0x652f, 0x4ed8, 0x9875, 0x9762, 0x683c, 0x5f0f]"

text \<open>
  \<open>parsePage\<close> is the part of \<open>checkPaymentPage\<close> that follows \<open>response.text()\<close>:
  either a result, or the \<open>PaymentLinkError\<close> it throws.
\<close>

definition parsePage :: "jsstring \<Rightarrow> thrown + check_result" where
  "parsePage text =
     (if str_includes text failure_marker
      then Inr \<lparr>isActive = False, transactionNo_r = None, amountAED_r = None,
                errorCode_r = Some generic_error_code\<rparr>
      else
        (let transactionMatch = regex_search transaction_rx text;
             amountMatch = regex_search amount_rx text
         in if transactionMatch = None \<and> amountMatch = None
            then Inl (AppErr (PaymentLinkError invalid_format_message (js ''INVALID_FORMAT'')))
            else Inr \<lparr>isActive = True, transactionNo_r = group1 transactionMatch,
                      amountAED_r = group1 amountMatch, errorCode_r = None\<rparr>))"

subsection \<open>Fetching the page\<close>

text \<open>
  \<open>fetch(url)\<close> either rejects with a thrown value or answers with a response: its
  \<open>ok\<close> flag, its status text, and what \<open>response.text()\<close> gives (a thrown value or
  the text). The network is the argument \<open>fetch\<close>.
\<close>

datatype fetch_result =
  FetchRejected thrown
| FetchResponse bool jsstring "thrown + jsstring"

definition fetch_failed_prefix :: jsstring where
  "fetch_failed_prefix = [0x83b7, 0x53d6, 0x652f, 0x4ed8, 0x9875, 0x9762, 0x5931, 0x8d25, 0x3a, 0x20]"

definition check_failed_prefix :: jsstring where
  "check_failed_prefix = [0x68c0, 0x67e5, 0x652f, 0x4ed8, 0x9875, 0x9762, 0x5931, 0x8d25, 0x3a, 0x20]"

definition unknown_error_message :: jsstring where
  "unknown_error_message = [0x672a, 0x77e5, 0x9519, 0x8bef]"

definition is_PaymentLinkError :: "thrown \<Rightarrow> bool" where
  "is_PaymentLinkError e =
     (case e of AppErr a \<Rightarrow> name a = js ''PaymentLinkError'' | PlainError m \<Rightarrow> False
      | OtherValue \<Rightarrow> False)"

text \<open>The \<open>catch\<close> block of \<open>checkPaymentPage\<close>: what is thrown on, for a caught value.\<close>

definition check_catch :: "thrown \<Rightarrow> thrown" where
  "check_catch e =
     (if is_PaymentLinkError e then e
      else AppErr (PaymentLinkError
             (check_failed_prefix @
                (case e of AppErr a \<Rightarrow> message a | PlainError m \<Rightarrow> m
                 | OtherValue \<Rightarrow> unknown_error_message))
             (js ''CHECK_ERROR'')))"

definition checkPaymentPage :: "(jsstring \<Rightarrow> fetch_result) \<Rightarrow> jsstring \<Rightarrow> thrown + check_result" where
  "checkPaymentPage fetch url' =
     (case fetch url' of
        FetchRejected e \<Rightarrow> Inl (check_catch e)
      | FetchResponse ok statusText body \<Rightarrow>
          if \<not> ok
          then Inl (check_catch (AppErr (PaymentLinkError (fetch_failed_prefix @ statusText)
                                   (js ''FETCH_ERROR''))))
          else (case body of
                  Inl e \<Rightarrow> Inl (check_catch e)
                | Inr text \<Rightarrow>
                    (case parsePage text of
                       Inl e \<Rightarrow> Inl (check_catch e)
                     | Inr r \<Rightarrow> Inr r)))"

section \<open>The routes\<close>

text \<open>
  A route takes the storage and the request and gives the storage, the reply and the
  updates it broadcasts. \<open>user\<close> is \<open>None\<close> when the request is not authenticated and
  \<open>Some\<close> of \<open>req.user.id\<close> otherwise. The path parameter \<open>:id\<close> is taken after
  \<open>parseInt\<close>; a parameter that is not a number gives \<open>NaN\<close>, which is the id of no
  link. Each route runs here without another request in between its awaits.
\<close>

datatype reply =
  SendStatus nat
| JsonLink nat PaymentLink
| JsonError nat jsstring "jsstring option"

datatype update =
  StatusUpdate PaymentLink
| Renew PaymentLink

definition error_reply :: "thrown \<Rightarrow> reply" where
  "error_reply e = (let appError = handleError e
                    in JsonError (statusCode appError) (message appError) (code appError))"

definition not_found_message :: jsstring where
  "not_found_message = [0x672a, 0x627e, 0x5230, 0x652f, 0x4ed8, 0x94fe, 0x63a5]"

definition missing_url_message :: jsstring where
  "missing_url_message =
     [0x7f3a, 0x5c11, 0x65b0, 0x7684, 0x652f, 0x4ed8, 0x94fe, 0x63a5, 0x55, 0x52, 0x4c]"

definition unauthorized_message :: jsstring where
  "unauthorized_message = [0x65e0, 0x6743, 0x64cd, 0x4f5c, 0x6b64, 0x652f, 0x4ed8, 0x94fe, 0x63a5]"

text \<open>\<open>POST /api/payment-links/:id/check\<close>\<close>

definition check_route ::
  "(jsstring \<Rightarrow> fetch_result) \<Rightarrow> nat \<Rightarrow> int option \<Rightarrow> int \<Rightarrow> MemStorage \<Rightarrow>
   MemStorage \<times> reply \<times> update list" where
  "check_route fetch now user i st =
     (case user of
        None \<Rightarrow> (st, SendStatus 401, [])
      | Some uid \<Rightarrow>
          (case find (\<lambda>l. link_id l = i) (getPaymentLinks st uid) of
             None \<Rightarrow>
               (st, error_reply (AppErr (PaymentLinkError not_found_message (js ''NOT_FOUND''))), [])
           | Some link \<Rightarrow>
               (case checkPaymentPage fetch (url link) of
                  Inl e \<Rightarrow> (st, error_reply e, [])
                | Inr checkResult \<Rightarrow>
                    (case updatePaymentLinkStatus st now (link_id link)
                            (if isActive checkResult then js ''active'' else js ''error'')
                            (errorCode_r checkResult) (transactionNo_r checkResult)
                            (amountAED_r checkResult) of
                       Inl e \<Rightarrow> (st, error_reply e, [])
                     | Inr (st', updated) \<Rightarrow> (st', JsonLink 200 updated, [StatusUpdate updated])))))"

text \<open>
  \<open>POST /api/payment-links/:id/renew\<close>. The body's \<open>url\<close> is \<open>None\<close> when it is
  missing or \<open>null\<close>; \<open>!url\<close> also holds of the empty string.
\<close>

definition renew_route ::
  "nat \<Rightarrow> int option \<Rightarrow> int \<Rightarrow> jsstring option \<Rightarrow> MemStorage \<Rightarrow>
   MemStorage \<times> reply \<times> update list" where
  "renew_route now user i body_url st =
     (case user of
        None \<Rightarrow> (st, SendStatus 401, [])
      | Some uid \<Rightarrow>
          (case (case body_url of None \<Rightarrow> None | Some u \<Rightarrow> if u = [] then None else Some u) of
             None \<Rightarrow>
               (st, error_reply (AppErr (PaymentLinkError missing_url_message
                                   (js ''VALIDATION_ERROR''))), [])
           | Some url' \<Rightarrow>
               (case find (\<lambda>l. link_id l = i) (getPaymentLinks st uid) of
                  None \<Rightarrow>
                    (st, error_reply (AppErr (PaymentLinkError not_found_message
                                        (js ''NOT_FOUND''))), [])
                | Some link \<Rightarrow>
                    if userId link \<noteq> uid
                    then (st, error_reply (AppErr (PaymentLinkError unauthorized_message
                                             (js ''UNAUTHORIZED''))), [])
                    else
                      (case updatePaymentLinkUrl st i url' of
                         Inl e \<Rightarrow> (st, error_reply e, [])
                       | Inr (st1, updated) \<Rightarrow>
                           (case updatePaymentLinkStatus st1 now i (js ''active'') None None None of
                              Inl e \<Rightarrow> (st1, error_reply e, [])
                            | Inr (st2, resetLink) \<Rightarrow>
                                (st2, JsonLink 200 resetLink, [Renew resetLink]))))))"

section \<open>The client\<close>

subsection \<open>The reconciliation interval of \<open>PaymentLinkGrid\<close>\<close>

text \<open>
  Every five seconds the interval walks the list of links the view holds and calls
  \<open>checkStatus(link.id)\<close> for each entry that is truthy and not archived.
  \<open>tick_selected\<close> gives the links for which the call is made, in order, and \<open>tick\<close>
  the ids the calls are made with. An entry of the list is \<open>None\<close> when it is \<open>null\<close>
  or \<open>undefined\<close>.
\<close>

fun tick_selected :: "PaymentLink option list \<Rightarrow> PaymentLink list" where
  "tick_selected [] = []"
| "tick_selected (None # links) = tick_selected links"
| "tick_selected (Some link # links) =
     (if \<not> archived link then link # tick_selected links else tick_selected links)"

definition tick :: "PaymentLink option list \<Rightarrow> int list" where
  "tick links = map link_id (tick_selected links)"

subsection \<open>The WebSocket connection of \<open>usePaymentLinks\<close>\<close>

text \<open>
  The module holds the variable \<open>ws\<close> (\<open>null\<close> or a socket) and the counter
  \<open>reconnectAttempts\<close>. The handlers are attached to the socket object, not to the
  variable, so the sockets made so far are kept in a store, a list indexed by the
  order of creation that holds the ready state of each, and \<open>ws\<close> is an index into it.
  \<open>timers\<close> are the delays of the calls \<open>setTimeout(connectWebSocket, delay)\<close> that
  have not fired yet. The constructor is taken not to throw: the URL is built from the
  location of the page.
\<close>

datatype readyState = CONNECTING | OPEN | CLOSING | CLOSED

record client =
  sockets :: "readyState list"
  ws :: "nat option"
  reconnectAttempts :: nat
  timers :: "nat list"

definition MAX_RECONNECT_ATTEMPTS :: nat where
  "MAX_RECONNECT_ATTEMPTS = 5"

definition RECONNECT_DELAY :: nat where
  "RECONNECT_DELAY = 1000"

definition client_init :: client where
  "client_init = \<lparr>sockets = [], ws = None, reconnectAttempts = 0, timers = []\<rparr>"

text \<open>\<open>ws?.readyState\<close>\<close>

definition ws_readyState :: "client \<Rightarrow> readyState option" where
  "ws_readyState c =
     (case ws c of
        None \<Rightarrow> None
      | Some i \<Rightarrow> if i < length (sockets c) then Some (sockets c ! i) else None)"

definition connectWebSocket :: "client \<Rightarrow> client" where
  "connectWebSocket c =
     (if ws_readyState c = Some OPEN then c
      else if ws_readyState c = Some CONNECTING then c
      else c\<lparr>sockets := sockets c @ [CONNECTING], ws := Some (length (sockets c))\<rparr>)"

definition onopen :: "client \<Rightarrow> client" where
  "onopen c = c\<lparr>reconnectAttempts := 0\<rparr>"

definition onclose :: "client \<Rightarrow> client" where
  "onclose c =
     (let c1 = c\<lparr>ws := None\<rparr>
      in if reconnectAttempts c1 < MAX_RECONNECT_ATTEMPTS
         then (let c2 = c1\<lparr>reconnectAttempts := reconnectAttempts c1 + 1\<rparr>;
                   delay = RECONNECT_DELAY * 2 ^ (reconnectAttempts c2 - 1)
               in c2\<lparr>timers := timers c2 @ [delay]\<rparr>)
         else c1)"

text \<open>The cleanup of the effect of \<open>usePaymentLinks\<close>, run when the view is closed.\<close>

definition cleanup :: "client \<Rightarrow> client" where
  "cleanup c =
     (case ws c of
        None \<Rightarrow> c
      | Some i \<Rightarrow>
          if ws_readyState c = Some OPEN
          then c\<lparr>sockets := (sockets c)[i := CLOSING], ws := None\<rparr>
          else c)"

text \<open>
  What happens to the client, one event at a time: the view is mounted (the effect
  calls \<open>connectWebSocket\<close>) or closed (the cleanup runs); the browser opens socket
  \<open>i\<close>, which was connecting, and calls its \<open>onopen\<close>; the browser closes socket \<open>i\<close>,
  which was not closed yet (the connection failed, was lost, or \<open>close()\<close> was called on
  it), and calls its \<open>onclose\<close>; the pending timer number \<open>k\<close> fires and calls
  \<open>connectWebSocket\<close>. \<open>step\<close> is \<open>None\<close> for an event that cannot happen in the state.
\<close>

datatype event = Mount | Unmount | Opened nat | Closed nat | TimerFired nat

definition step :: "client \<Rightarrow> event \<Rightarrow> client option" where
  "step c e =
     (case e of
        Mount \<Rightarrow> Some (connectWebSocket c)
      | Unmount \<Rightarrow> Some (cleanup c)
      | Opened i \<Rightarrow>
          if i < length (sockets c) \<and> sockets c ! i = CONNECTING
          then Some (onopen (c\<lparr>sockets := (sockets c)[i := OPEN]\<rparr>))
          else None
      | Closed i \<Rightarrow>
          if i < length (sockets c) \<and> sockets c ! i \<noteq> CLOSED
          then Some (onclose (c\<lparr>sockets := (sockets c)[i := CLOSED]\<rparr>))
          else None
      | TimerFired k \<Rightarrow>
          if k < length (timers c)
          then Some (connectWebSocket (c\<lparr>timers := take k (timers c) @ drop (Suc k) (timers c)\<rparr>))
          else None)"

fun run :: "client \<Rightarrow> event list \<Rightarrow> client option" where
  "run c [] = Some c"
| "run c (e # es) = (case step c e of None \<Rightarrow> None | Some c' \<Rightarrow> run c' es)"

section \<open>Example values\<close>

text \<open>
  A storage with two links of two users. Link 1 was checked with success (which stored
  its transaction number and amount) and then with the failure marker on its page
  (which stored the error and kept both); link 2 was never checked with success.
\<close>

definition example_link1 :: PaymentLink where
  "example_link1 =
     \<lparr>link_id = 1, userId = 1, url = js ''https://pay.example/a'', amount = 10000,
      status = js ''error'', errorCode = Some generic_error_code, lastChecked = 0,
      transactionNo = Some (js ''12345''), amountAED = Some (js ''100.00''),
      archived = False\<rparr>"

definition example_link2 :: PaymentLink where
  "example_link2 =
     \<lparr>link_id = 2, userId = 2, url = js ''https://pay.example/b'', amount = 500,
      status = js ''active'', errorCode = None, lastChecked = 0,
      transactionNo = None, amountAED = None, archived = False\<rparr>"

definition example_storage :: MemStorage where
  "example_storage =
     \<lparr>paymentLinks = [(1, example_link1), (2, example_link2)], currentLinkId = 3\<rparr>"

text \<open>A network on which every page is served and reads \<open>Welcome\<close>.\<close>

definition example_fetch :: "jsstring \<Rightarrow> fetch_result" where
  "example_fetch u = FetchResponse True (js ''OK'') (Inr (js ''Welcome''))"

text \<open>
  The events of a connection that fails at once, again and again, for a client that has
  made \<open>m\<close> sockets before: the view is mounted and the first socket closes without
  having opened; then, \<open>n\<close> times, the pending timer fires (a reconnection attempt) and
  the socket it makes closes without having opened.
\<close>

primrec failing_attempts :: "nat \<Rightarrow> nat \<Rightarrow> event list" where
  "failing_attempts m 0 = [Mount, Closed m]"
| "failing_attempts m (Suc n) = failing_attempts m n @ [TimerFired 0, Closed (m + Suc n)]"

section \<open>Facts about the map\<close>

lemma map_get_map_set: "map_get (map_set m k v) k' = (if k' = k then Some v else map_get m k')"
  by (induction m) (auto simp: map_get_def)

lemma map_set_keys: "map_get m k \<noteq> None \<Longrightarrow> map fst (map_set m k v) = map fst m"
  by (induction m) (auto simp: map_get_def)

lemmas store_defs = example_storage_def example_link1_def example_link2_def map_get_def
  getPaymentLinks_def updatePaymentLinkUrl_def updatePaymentLinkStatus_def nullish_def Let_def

section \<open>Facts about the matcher\<close>

lemma strip_prefix_iff: "strip_prefix l s = Some r \<longleftrightarrow> s = l @ r"
  by (induction l s rule: strip_prefix.induct) auto

lemma strip_prefix_None_hd: "l \<noteq> [] \<Longrightarrow> s \<noteq> [] \<Longrightarrow> hd s \<noteq> hd l \<Longrightarrow> strip_prefix l s = None"
  by (cases l; cases s) auto

lemma first_some_below: "hi < lo \<Longrightarrow> first_some f lo hi = None"
  by (cases hi) auto

lemma first_some_top: "lo \<le> hi \<Longrightarrow> f hi = Some r \<Longrightarrow> first_some f lo hi = Some r"
  by (cases hi) auto

lemma first_some_None:
  "(\<And>k. lo \<le> k \<Longrightarrow> k \<le> hi \<Longrightarrow> f k = None) \<Longrightarrow> first_some f lo hi = None"
  by (induction hi) auto

lemma first_some_greedy:
  assumes "\<And>k. lo \<le> k \<Longrightarrow> k < hi \<Longrightarrow> f k = None"
  shows "first_some f lo hi = (if lo \<le> hi then f hi else None)"
proof (cases "lo \<le> hi")
  case False
  then show ?thesis by (simp add: first_some_below)
next
  case True
  show ?thesis
  proof (cases "f hi")
    case None
    have "first_some f lo hi = None"
    proof (rule first_some_None)
      fix k assume "lo \<le> k" "k \<le> hi"
      then show "f k = None" using assms None by (cases "k = hi") auto
    qed
    then show ?thesis using True None by simp
  next
    case (Some r)
    then show ?thesis using True by (simp add: first_some_top)
  qed
qed

lemma drop_inside_takeWhile:
  assumes "k < length (takeWhile P s)"
  shows "drop k s \<noteq> [] \<and> P (hd (drop k s))"
proof -
  have len: "k < length s" using assms length_takeWhile_le [of P s] by simp
  have "takeWhile P s ! k = s ! k" using assms by (rule takeWhile_nth)
  moreover have "P (takeWhile P s ! k)" using assms by (meson nth_mem set_takeWhileD)
  ultimately show ?thesis using len by (simp add: hd_drop_conv_nth)
qed

lemma drop_length_takeWhile: "drop (length (takeWhile P s)) s = dropWhile P s"
  by (metis append_eq_conv_conj takeWhile_dropWhile_id)

lemma take_length_takeWhile: "take (length (takeWhile P s)) s = takeWhile P s"
  by (metis append_eq_conv_conj takeWhile_dropWhile_id)

text \<open>A repetition never has to give back when the rest cannot start with what it takes.\<close>

lemma rx_match_Rep_greedy:
  assumes "\<And>t. t \<noteq> [] \<Longrightarrow> P (hd t) \<Longrightarrow> rx_match as t = None"
  shows "rx_match (Rep P lo cap # as) s =
           (if lo \<le> length (takeWhile P s)
            then (case rx_match as (dropWhile P s) of
                    None \<Rightarrow> None
                  | Some caps \<Rightarrow> Some (if cap then takeWhile P s # caps else caps))
            else None)"
proof -
  have "rx_match as (drop k s) = None" if "k < length (takeWhile P s)" for k
    using assms drop_inside_takeWhile [OF that] by blast
  then show ?thesis
    by (simp add: first_some_greedy drop_length_takeWhile take_length_takeWhile
          split: option.splits)
qed

lemma rx_match_Rep_last:
  "rx_match [Rep P lo cap] s =
     (if lo \<le> length (takeWhile P s) then Some (if cap then [takeWhile P s] else []) else None)"
  by (simp add: first_some_top first_some_below take_length_takeWhile)

subsection \<open>The two patterns\<close>

lemma space_not_digit: "is_space c \<Longrightarrow> \<not> is_digit c"
  by (auto simp: is_space_def is_digit_def)

lemma space_not_amount_char: "is_space c \<Longrightarrow> \<not> amount_char c"
  by (auto simp: is_space_def is_digit_def amount_char_def)

lemma amount_char_not_space: "amount_char c \<Longrightarrow> \<not> is_space c"
  using space_not_amount_char by blast

lemma hd_AED: "hd (js ''AED'') = 65" "js ''AED'' \<noteq> []"
  by (simp_all add: js_def)

lemma space_not_A: "is_space c \<Longrightarrow> c \<noteq> 65"
  by (auto simp: is_space_def)

lemma amount_char_not_A: "amount_char c \<Longrightarrow> c \<noteq> 65"
  by (auto simp: amount_char_def is_digit_def)

lemma takeWhile_hd_Nil: "t \<noteq> [] \<Longrightarrow> \<not> P (hd t) \<Longrightarrow> takeWhile P t = []"
  by (cases t) auto

lemma dropWhile_hd_id: "t \<noteq> [] \<Longrightarrow> \<not> P (hd t) \<Longrightarrow> dropWhile P t = t"
  by (cases t) auto

lemma transaction_rx_match:
  "rx_match transaction_rx s =
     (case strip_prefix (js ''SP Transaction No'') s of
        None \<Rightarrow> None
      | Some r \<Rightarrow>
          if takeWhile is_space r = [] \<or> takeWhile is_digit (dropWhile is_space r) = []
          then None
          else Some [takeWhile is_digit (dropWhile is_space r)])"
proof -
  have tail: "rx_match [Rep is_digit 1 True] t = None" if "t \<noteq> []" "is_space (hd t)" for t
    using that by (simp add: rx_match_Rep_last takeWhile_hd_Nil space_not_digit del: rx_match.simps(3))
  have "rx_match [Rep is_space 1 False, Rep is_digit 1 True] r =
          (if takeWhile is_space r = [] \<or> takeWhile is_digit (dropWhile is_space r) = []
           then None else Some [takeWhile is_digit (dropWhile is_space r)])" for r
    using rx_match_Rep_greedy [of is_space "[Rep is_digit 1 True]" 1 False r, OF tail]
    by (simp add: rx_match_Rep_last Suc_le_eq del: rx_match.simps(3))
  then show ?thesis
    by (simp add: transaction_rx_def del: rx_match.simps(3) split: option.splits)
qed

lemma amount_rx_match:
  "rx_match amount_rx s =
     (case strip_prefix (js ''Amount'') s of
        None \<Rightarrow> None
      | Some r \<Rightarrow>
          if takeWhile is_space r = [] \<or> takeWhile amount_char (dropWhile is_space r) = []
          then None
          else (case strip_prefix (js ''AED'')
                       (dropWhile is_space (dropWhile amount_char (dropWhile is_space r))) of
                  None \<Rightarrow> None
                | Some _ \<Rightarrow> Some [takeWhile amount_char (dropWhile is_space r)]))"
proof -
  let ?T4 = "[Str (js ''AED'')]"
  let ?T3 = "Rep is_space 0 False # ?T4"
  let ?T2 = "Rep amount_char (Suc 0) True # ?T3"
  have t4: "rx_match ?T4 t = None" if "t \<noteq> []" "hd t \<noteq> 65" for t
    using that by (simp add: strip_prefix_None_hd hd_AED)
  have t4s: "rx_match ?T4 t = None" if "t \<noteq> []" "is_space (hd t)" for t
    using that t4 space_not_A by blast
  have m3: "rx_match ?T3 t =
              (case strip_prefix (js ''AED'') (dropWhile is_space t) of
                 None \<Rightarrow> None | Some _ \<Rightarrow> Some [])" for t
    using rx_match_Rep_greedy [of is_space ?T4 0 False t, OF t4s]
    by (simp del: rx_match.simps(3) split: option.splits)
  have t3: "rx_match ?T3 t = None" if "t \<noteq> []" "amount_char (hd t)" for t
    using that
    by (simp add: m3 dropWhile_hd_id amount_char_not_space amount_char_not_A
          strip_prefix_None_hd hd_AED del: rx_match.simps(3))
  have m2: "rx_match ?T2 t =
              (if takeWhile amount_char t = [] then None
               else (case strip_prefix (js ''AED'') (dropWhile is_space (dropWhile amount_char t)) of
                       None \<Rightarrow> None | Some _ \<Rightarrow> Some [takeWhile amount_char t]))" for t
    using rx_match_Rep_greedy [of amount_char ?T3 "Suc 0" True t, OF t3]
    by (simp add: m3 Suc_le_eq del: rx_match.simps(3) split: option.splits)
  have t2: "rx_match ?T2 t = None" if "t \<noteq> []" "is_space (hd t)" for t
    using that by (simp add: m2 takeWhile_hd_Nil space_not_amount_char del: rx_match.simps(3))
  have m1: "rx_match (Rep is_space (Suc 0) False # ?T2) r =
              (if takeWhile is_space r = [] \<or> takeWhile amount_char (dropWhile is_space r) = []
               then None
               else (case strip_prefix (js ''AED'')
                            (dropWhile is_space (dropWhile amount_char (dropWhile is_space r))) of
                       None \<Rightarrow> None
                     | Some _ \<Rightarrow> Some [takeWhile amount_char (dropWhile is_space r)]))" for r
    using rx_match_Rep_greedy [of is_space ?T2 "Suc 0" False r, OF t2]
    by (simp add: m2 Suc_le_eq del: rx_match.simps(3) split: option.splits)
  show ?thesis
    unfolding amount_rx_def by (simp add: m1 del: rx_match.simps(3) split: option.splits)
qed

subsection \<open>Matches and tokens\<close>

lemma regex_search_Some:
  "regex_search rx s = Some r \<Longrightarrow> \<exists>pre suf. s = pre @ suf \<and> rx_match rx suf = Some r"
proof (induction s)
  case Nil
  then show ?case by simp
next
  case (Cons c cs)
  show ?case
  proof (cases "rx_match rx (c # cs)")
    case (Some r')
    with Cons.prems have "rx_match rx (c # cs) = Some r" by simp
    then show ?thesis by (metis append_Nil)
  next
    case None
    with Cons.prems have "regex_search rx cs = Some r" by simp
    then obtain pre suf where "cs = pre @ suf" "rx_match rx suf = Some r"
      using Cons.IH by blast
    then show ?thesis by (metis append_Cons)
  qed
qed

lemma regex_search_found:
  "rx_match rx suf \<noteq> None \<Longrightarrow> regex_search rx (pre @ suf) \<noteq> None"
proof (induction pre)
  case Nil
  then show ?case by (cases suf) auto
next
  case (Cons c pre)
  then show ?case by (auto split: option.splits)
qed

lemma takeWhile_all: "list_all P sp \<Longrightarrow> takeWhile P (sp @ r) = sp @ takeWhile P r"
  by (induction sp) auto

lemma dropWhile_all: "list_all P sp \<Longrightarrow> dropWhile P (sp @ r) = dropWhile P r"
  by (induction sp) auto

lemma list_all_takeWhile: "list_all P (takeWhile P s)"
  by (induction s) auto

lemma transaction_match_token:
  assumes "rx_match transaction_rx suf = Some caps"
  shows "\<exists>sp t post. caps = [t] \<and> suf = js ''SP Transaction No'' @ sp @ t @ post \<and>
           sp \<noteq> [] \<and> list_all is_space sp \<and> t \<noteq> [] \<and> list_all is_digit t"
proof -
  from assms obtain r where r: "suf = js ''SP Transaction No'' @ r"
    and sp: "takeWhile is_space r \<noteq> []"
    and t: "takeWhile is_digit (dropWhile is_space r) \<noteq> []"
    and caps: "caps = [takeWhile is_digit (dropWhile is_space r)]"
    by (auto simp: transaction_rx_match strip_prefix_iff split: option.splits if_splits)
  have "r = takeWhile is_space r @ takeWhile is_digit (dropWhile is_space r)
              @ dropWhile is_digit (dropWhile is_space r)"
    by simp
  with r have "suf = js ''SP Transaction No'' @ takeWhile is_space r
                 @ takeWhile is_digit (dropWhile is_space r)
                 @ dropWhile is_digit (dropWhile is_space r)"
    by simp
  with sp t caps show ?thesis
    using list_all_takeWhile by blast
qed

lemma transaction_token_match:
  assumes "sp \<noteq> []" "list_all is_space sp" "t \<noteq> []" "list_all is_digit t"
  shows "rx_match transaction_rx (js ''SP Transaction No'' @ sp @ t @ post)
           = Some [t @ takeWhile is_digit post]"
proof -
  have strip: "strip_prefix (js ''SP Transaction No'') (js ''SP Transaction No'' @ sp @ t @ post)
                 = Some (sp @ t @ post)"
    by (simp add: strip_prefix_iff)
  have hd_t: "\<not> is_space (hd (t @ post))" "t @ post \<noteq> []"
    using assms(3,4) space_not_digit by (cases t; auto)+
  have tw: "takeWhile is_space (sp @ t @ post) = sp"
    using assms(2) hd_t by (simp add: takeWhile_all takeWhile_hd_Nil)
  have dw: "dropWhile is_space (sp @ t @ post) = t @ post"
    using assms(2) hd_t by (simp add: dropWhile_all dropWhile_hd_id)
  have td: "takeWhile is_digit (t @ post) = t @ takeWhile is_digit post"
    using assms(4) by (rule takeWhile_all)
  show ?thesis
    using assms(1,3) by (simp add: transaction_rx_match strip tw dw td)
qed

lemma amount_match_token:
  assumes "rx_match amount_rx suf = Some caps"
  shows "\<exists>sp1 t sp2 post. caps = [t] \<and> suf = js ''Amount'' @ sp1 @ t @ sp2 @ js ''AED'' @ post \<and>
           sp1 \<noteq> [] \<and> list_all is_space sp1 \<and> t \<noteq> [] \<and> list_all amount_char t \<and>
           list_all is_space sp2"
proof -
  let ?r1 = "\<lambda>r. dropWhile is_space r"
  let ?r2 = "\<lambda>r. dropWhile amount_char (?r1 r)"
  from assms obtain r post where r: "suf = js ''Amount'' @ r"
    and sp: "takeWhile is_space r \<noteq> []"
    and t: "takeWhile amount_char (?r1 r) \<noteq> []"
    and post: "dropWhile is_space (?r2 r) = js ''AED'' @ post"
    and caps: "caps = [takeWhile amount_char (?r1 r)]"
    by (auto simp: amount_rx_match strip_prefix_iff split: option.splits if_splits)
  have "r = takeWhile is_space r @ takeWhile amount_char (?r1 r)
              @ takeWhile is_space (?r2 r) @ dropWhile is_space (?r2 r)"
    by simp
  with r post have "suf = js ''Amount'' @ takeWhile is_space r @ takeWhile amount_char (?r1 r)
                 @ takeWhile is_space (?r2 r) @ js ''AED'' @ post"
    by simp
  with sp t caps show ?thesis
    using list_all_takeWhile by blast
qed

lemma amount_token_match:
  assumes "sp1 \<noteq> []" "list_all is_space sp1" "t \<noteq> []" "list_all amount_char t"
    "list_all is_space sp2"
  shows "rx_match amount_rx (js ''Amount'' @ sp1 @ t @ sp2 @ js ''AED'' @ post) = Some [t]"
proof -
  let ?rest = "sp2 @ js ''AED'' @ post"
  have strip: "strip_prefix (js ''Amount'') (js ''Amount'' @ sp1 @ t @ ?rest)
                 = Some (sp1 @ t @ ?rest)"
    by (simp add: strip_prefix_iff)
  have hd_t: "\<not> is_space (hd (t @ ?rest))" "t @ ?rest \<noteq> []"
    using assms(3,4) amount_char_not_space by (cases t; auto)+
  have aed: "js ''AED'' @ post \<noteq> []" "\<not> is_space (hd (js ''AED'' @ post))"
    "\<not> amount_char (hd (js ''AED'' @ post))"
    by (simp_all add: js_def is_space_def amount_char_def is_digit_def)
  have hd_rest: "?rest \<noteq> []" "\<not> amount_char (hd ?rest)"
    using assms(5) aed space_not_amount_char by (cases sp2; auto)+
  have tw: "takeWhile is_space (sp1 @ t @ ?rest) = sp1"
    using assms(2) hd_t by (simp add: takeWhile_all takeWhile_hd_Nil)
  have dw: "dropWhile is_space (sp1 @ t @ ?rest) = t @ ?rest"
    using assms(2) hd_t by (simp add: dropWhile_all dropWhile_hd_id)
  have ta: "takeWhile amount_char (t @ ?rest) = t"
    using assms(4) hd_rest by (simp add: takeWhile_all takeWhile_hd_Nil)
  have da: "dropWhile amount_char (t @ ?rest) = ?rest"
    using assms(4) hd_rest by (simp add: dropWhile_all dropWhile_hd_id)
  have ds: "dropWhile is_space ?rest = js ''AED'' @ post"
    using assms(5) aed by (simp add: dropWhile_all dropWhile_hd_id)
  have s2: "strip_prefix (js ''AED'') (js ''AED'' @ post) = Some post"
    by (simp add: strip_prefix_iff)
  show ?thesis
    using assms(1,3) by (simp add: amount_rx_match strip tw dw ta da ds s2)
qed

text \<open>The first capture of a search is the token of the page: leftmost, whole run.\<close>

lemma takeWhile_dropWhile_Nil: "takeWhile P (dropWhile P xs) = []"
  by (induction xs) auto

lemma transaction_at_match: "transaction_at s t \<longleftrightarrow> rx_match transaction_rx s = Some [t]"
proof
  assume "transaction_at s t"
  then obtain sp post where "s = js ''SP Transaction No'' @ sp @ t @ post"
    "sp \<noteq> []" "list_all is_space sp" "t \<noteq> []" "list_all is_digit t"
    "takeWhile is_digit post = []"
    unfolding transaction_at_def by blast
  then show "rx_match transaction_rx s = Some [t]"
    using transaction_token_match [of sp t post] by simp
next
  assume m: "rx_match transaction_rx s = Some [t]"
  then obtain r where r: "s = js ''SP Transaction No'' @ r"
    and sp: "takeWhile is_space r \<noteq> []"
    and t: "t = takeWhile is_digit (dropWhile is_space r)" "t \<noteq> []"
    by (auto simp: transaction_rx_match strip_prefix_iff split: option.splits if_splits)
  have "r = takeWhile is_space r @ t @ dropWhile is_digit (dropWhile is_space r)"
    using t(1) by simp
  with r have "s = js ''SP Transaction No'' @ takeWhile is_space r @ t
                 @ dropWhile is_digit (dropWhile is_space r)"
    by simp
  moreover have "list_all is_space (takeWhile is_space r)" "list_all is_digit t"
    using t(1) by (simp_all add: list_all_takeWhile)
  moreover have "takeWhile is_digit (dropWhile is_digit (dropWhile is_space r)) = []"
    by (rule takeWhile_dropWhile_Nil)
  ultimately show "transaction_at s t"
    unfolding transaction_at_def using sp t(2) by blast
qed

lemma transaction_match_single:
  "rx_match transaction_rx s = Some caps \<Longrightarrow> \<exists>t. caps = [t]"
  using transaction_match_token by blast

lemma transaction_at_None:
  "(\<exists>t. transaction_at s t) \<longleftrightarrow> rx_match transaction_rx s \<noteq> None"
  using transaction_at_match transaction_match_single by (metis not_Some_eq option.distinct(1))

lemma amount_at_match: "amount_at s t \<longleftrightarrow> rx_match amount_rx s = Some [t]"
proof
  assume "amount_at s t"
  then obtain sp1 sp2 post where "s = js ''Amount'' @ sp1 @ t @ sp2 @ js ''AED'' @ post"
    "sp1 \<noteq> []" "list_all is_space sp1" "t \<noteq> []" "list_all amount_char t"
    "list_all is_space sp2"
    unfolding amount_at_def by blast
  then show "rx_match amount_rx s = Some [t]"
    using amount_token_match [of sp1 t sp2 post] by simp
next
  assume "rx_match amount_rx s = Some [t]"
  from amount_match_token [OF this] show "amount_at s t"
    unfolding amount_at_def by blast
qed

lemma amount_match_single:
  "rx_match amount_rx s = Some caps \<Longrightarrow> \<exists>t. caps = [t]"
  using amount_match_token by blast

lemma amount_at_None:
  "(\<exists>t. amount_at s t) \<longleftrightarrow> rx_match amount_rx s \<noteq> None"
  using amount_at_match amount_match_single by (metis not_Some_eq option.distinct(1))

lemma regex_search_leftmost_bounded:
  "regex_search rx s = Some r \<longleftrightarrow>
     (\<exists>n\<le>length s. rx_match rx (drop n s) = Some r \<and> (\<forall>k<n. rx_match rx (drop k s) = None))"
proof (induction s)
  case Nil
  then show ?case by simp
next
  case (Cons c cs)
  show ?case
  proof (cases "rx_match rx (c # cs)")
    case (Some r')
    have "(\<exists>n\<le>length (c # cs). rx_match rx (drop n (c # cs)) = Some r \<and>
             (\<forall>k<n. rx_match rx (drop k (c # cs)) = None)) \<longleftrightarrow> r' = r"
    proof
      assume "\<exists>n\<le>length (c # cs). rx_match rx (drop n (c # cs)) = Some r \<and>
                (\<forall>k<n. rx_match rx (drop k (c # cs)) = None)"
      then obtain n where n: "rx_match rx (drop n (c # cs)) = Some r"
        "\<forall>k<n. rx_match rx (drop k (c # cs)) = None" by blast
      have "n = 0"
      proof (rule ccontr)
        assume "n \<noteq> 0"
        then have "rx_match rx (drop 0 (c # cs)) = None" using n(2) by blast
        then show False using Some by simp
      qed
      then show "r' = r" using n(1) Some by simp
    next
      assume "r' = r"
      then have "rx_match rx (drop 0 (c # cs)) = Some r" using Some by simp
      then show "\<exists>n\<le>length (c # cs). rx_match rx (drop n (c # cs)) = Some r \<and>
                   (\<forall>k<n. rx_match rx (drop k (c # cs)) = None)"
        by (intro exI [of _ 0]) simp
    qed
    then show ?thesis using Some by simp
  next
    case None
    have "(\<exists>n\<le>length (c # cs). rx_match rx (drop n (c # cs)) = Some r \<and>
             (\<forall>k<n. rx_match rx (drop k (c # cs)) = None)) \<longleftrightarrow>
          (\<exists>n\<le>length cs. rx_match rx (drop n cs) = Some r \<and>
             (\<forall>k<n. rx_match rx (drop k cs) = None))"
    proof
      assume "\<exists>n\<le>length (c # cs). rx_match rx (drop n (c # cs)) = Some r \<and>
                (\<forall>k<n. rx_match rx (drop k (c # cs)) = None)"
      then obtain n where n: "n \<le> length (c # cs)" "rx_match rx (drop n (c # cs)) = Some r"
        "\<forall>k<n. rx_match rx (drop k (c # cs)) = None" by blast
      from n(2) None obtain m where m: "n = Suc m" by (cases n) auto
      have "\<forall>k<m. rx_match rx (drop k cs) = None"
      proof (intro allI impI)
        fix k assume "k < m"
        then have "rx_match rx (drop (Suc k) (c # cs)) = None" using n(3) m by blast
        then show "rx_match rx (drop k cs) = None" by simp
      qed
      then show "\<exists>n\<le>length cs. rx_match rx (drop n cs) = Some r \<and>
                   (\<forall>k<n. rx_match rx (drop k cs) = None)"
        using n(1,2) m by (intro exI [of _ m]) simp
    next
      assume "\<exists>n\<le>length cs. rx_match rx (drop n cs) = Some r \<and>
                (\<forall>k<n. rx_match rx (drop k cs) = None)"
      then obtain m where m: "m \<le> length cs" "rx_match rx (drop m cs) = Some r"
        "\<forall>k<m. rx_match rx (drop k cs) = None" by blast
      have "\<forall>k<Suc m. rx_match rx (drop k (c # cs)) = None"
      proof (intro allI impI)
        fix k assume "k < Suc m"
        then show "rx_match rx (drop k (c # cs)) = None"
          using m(3) None by (cases k) auto
      qed
      then show "\<exists>n\<le>length (c # cs). rx_match rx (drop n (c # cs)) = Some r \<and>
                   (\<forall>k<n. rx_match rx (drop k (c # cs)) = None)"
        using m(1,2) by (intro exI [of _ "Suc m"]) simp
    qed
    then show ?thesis using None Cons.IH by simp
  qed
qed

lemma regex_search_leftmost:
  "regex_search rx s = Some r \<longleftrightarrow>
     (\<exists>n. rx_match rx (drop n s) = Some r \<and> (\<forall>k<n. rx_match rx (drop k s) = None))"
proof
  assume "regex_search rx s = Some r"
  then show "\<exists>n. rx_match rx (drop n s) = Some r \<and> (\<forall>k<n. rx_match rx (drop k s) = None)"
    using regex_search_leftmost_bounded by blast
next
  assume "\<exists>n. rx_match rx (drop n s) = Some r \<and> (\<forall>k<n. rx_match rx (drop k s) = None)"
  then obtain n where n: "rx_match rx (drop n s) = Some r"
    "\<forall>k<n. rx_match rx (drop k s) = None" by blast
  have "n \<le> length s"
  proof (rule ccontr)
    assume "\<not> n \<le> length s"
    then have "length s < n" by simp
    then have "rx_match rx (drop (length s) s) = None" using n(2) by blast
    moreover have "drop n s = drop (length s) s" using \<open>length s < n\<close> by simp
    ultimately show False using n(1) by simp
  qed
  then show "regex_search rx s = Some r"
    using n regex_search_leftmost_bounded by blast
qed

lemma transaction_search_token:
  "group1 (regex_search transaction_rx page) = Some t \<longleftrightarrow> transaction_token page t"
proof
  assume g: "group1 (regex_search transaction_rx page) = Some t"
  then obtain caps where caps: "regex_search transaction_rx page = Some caps"
    by (auto simp: group1_def split: option.splits)
  then obtain n where n: "rx_match transaction_rx (drop n page) = Some caps"
    "\<forall>k<n. rx_match transaction_rx (drop k page) = None"
    using regex_search_leftmost by blast
  from transaction_match_single [OF n(1)] g caps have "caps = [t]"
    by (auto simp: group1_def)
  then have "transaction_at (drop n page) t"
    using n(1) by (simp add: transaction_at_match)
  moreover have "\<forall>k<n. \<not> (\<exists>t'. transaction_at (drop k page) t')"
    using n(2) by (simp add: transaction_at_match)
  ultimately show "transaction_token page t"
    unfolding transaction_token_def by blast
next
  assume "transaction_token page t"
  then obtain n where n: "transaction_at (drop n page) t"
    "\<forall>k<n. \<not> (\<exists>t'. transaction_at (drop k page) t')"
    unfolding transaction_token_def by blast
  have "rx_match transaction_rx (drop n page) = Some [t]"
    using n(1) by (simp add: transaction_at_match)
  moreover have "\<forall>k<n. rx_match transaction_rx (drop k page) = None"
    using n(2) transaction_at_None by blast
  ultimately have "regex_search transaction_rx page = Some [t]"
    using regex_search_leftmost by blast
  then show "group1 (regex_search transaction_rx page) = Some t"
    by (simp add: group1_def)
qed

lemma transaction_search_group:
  assumes "regex_search transaction_rx page \<noteq> None"
  shows "group1 (regex_search transaction_rx page) \<noteq> None"
proof -
  from assms obtain caps where caps: "regex_search transaction_rx page = Some caps" by blast
  then obtain n where "rx_match transaction_rx (drop n page) = Some caps"
    using regex_search_leftmost by blast
  from transaction_match_single [OF this] caps show ?thesis
    by (auto simp: group1_def)
qed

lemma transaction_search_iff:
  "(\<exists>t. transaction_token page t) \<longleftrightarrow> regex_search transaction_rx page \<noteq> None"
proof
  assume "\<exists>t. transaction_token page t"
  then obtain t where "group1 (regex_search transaction_rx page) = Some t"
    using transaction_search_token by blast
  then show "regex_search transaction_rx page \<noteq> None"
    by (auto simp: group1_def split: option.splits)
next
  assume "regex_search transaction_rx page \<noteq> None"
  then obtain t where "group1 (regex_search transaction_rx page) = Some t"
    using transaction_search_group by blast
  then show "\<exists>t. transaction_token page t"
    using transaction_search_token by blast
qed

lemma amount_search_token:
  "group1 (regex_search amount_rx page) = Some t \<longleftrightarrow> amount_token page t"
proof
  assume g: "group1 (regex_search amount_rx page) = Some t"
  then obtain caps where caps: "regex_search amount_rx page = Some caps"
    by (auto simp: group1_def split: option.splits)
  then obtain n where n: "rx_match amount_rx (drop n page) = Some caps"
    "\<forall>k<n. rx_match amount_rx (drop k page) = None"
    using regex_search_leftmost by blast
  from amount_match_single [OF n(1)] g caps have "caps = [t]"
    by (auto simp: group1_def)
  then have "amount_at (drop n page) t"
    using n(1) by (simp add: amount_at_match)
  moreover have "\<forall>k<n. \<not> (\<exists>t'. amount_at (drop k page) t')"
    using n(2) by (simp add: amount_at_match)
  ultimately show "amount_token page t"
    unfolding amount_token_def by blast
next
  assume "amount_token page t"
  then obtain n where n: "amount_at (drop n page) t"
    "\<forall>k<n. \<not> (\<exists>t'. amount_at (drop k page) t')"
    unfolding amount_token_def by blast
  have "rx_match amount_rx (drop n page) = Some [t]"
    using n(1) by (simp add: amount_at_match)
  moreover have "\<forall>k<n. rx_match amount_rx (drop k page) = None"
    using n(2) amount_at_None by blast
  ultimately have "regex_search amount_rx page = Some [t]"
    using regex_search_leftmost by blast
  then show "group1 (regex_search amount_rx page) = Some t"
    by (simp add: group1_def)
qed

lemma amount_search_group:
  assumes "regex_search amount_rx page \<noteq> None"
  shows "group1 (regex_search amount_rx page) \<noteq> None"
proof -
  from assms obtain caps where caps: "regex_search amount_rx page = Some caps" by blast
  then obtain n where "rx_match amount_rx (drop n page) = Some caps"
    using regex_search_leftmost by blast
  from amount_match_single [OF this] caps show ?thesis
    by (auto simp: group1_def)
qed

lemma amount_search_iff:
  "(\<exists>t. amount_token page t) \<longleftrightarrow> regex_search amount_rx page \<noteq> None"
proof
  assume "\<exists>t. amount_token page t"
  then obtain t where "group1 (regex_search amount_rx page) = Some t"
    using amount_search_token by blast
  then show "regex_search amount_rx page \<noteq> None"
    by (auto simp: group1_def split: option.splits)
next
  assume "regex_search amount_rx page \<noteq> None"
  then obtain t where "group1 (regex_search amount_rx page) = Some t"
    using amount_search_group by blast
  then show "\<exists>t. amount_token page t"
    using amount_search_token by blast
qed

lemmas parse_defs = parsePage_def js_def str_includes_def failure_marker_def transaction_rx_def
  amount_rx_def group1_def is_space_def is_digit_def amount_char_def sublist_code(3) prefix_code
  PaymentLinkError_def generic_error_code_def invalid_format_message_def

section \<open>Facts about the client\<close>

lemma tick_selected_sound:
  "l \<in> set (tick_selected links) \<Longrightarrow> Some l \<in> set links \<and> \<not> archived l"
  by (induction links rule: tick_selected.induct) (auto split: if_splits)

lemma run_append:
  "run c (es @ es') = (case run c es of None \<Rightarrow> None | Some c' \<Rightarrow> run c' es')"
  by (induction es arbitrary: c) (auto split: option.splits)

lemma replicate_snoc_update:
  "(ss @ replicate k x @ [y])[length ss + k := x] = ss @ replicate (Suc k) x"
  by (simp add: list_update_append replicate_append_same)

lemmas client_defs = step_def connectWebSocket_def onopen_def onclose_def cleanup_def
  ws_readyState_def client_init_def MAX_RECONNECT_ATTEMPTS_def RECONNECT_DELAY_def Let_def

section \<open>The claims\<close>

text \<open>
  C1. The specification has a renew leave the link \<open>active\<close> with no error code, no
  transaction reference and no collected amount, whatever its state before. The route
  resets the status and the error code, and passes \<open>null\<close> for the transaction number
  and the amount; \<open>updatePaymentLinkStatus\<close> reads a \<open>null\<close> there as "keep what is
  stored". Evaluated on link 1 of the example storage, renewed by its owner: the link
  comes back \<open>active\<close> with no error code, and still carries the transaction number
  \<open>12345\<close> and the amount \<open>100.00\<close> it had before.
\<close>

theorem renew_keeps_transaction:
  "renew_route 7 (Some 1) 1 (Some (js ''https://pay.example/new'')) example_storage =
     (\<lparr>paymentLinks =
         [(1, example_link1\<lparr>url := js ''https://pay.example/new'', status := js ''active'',
                errorCode := None, lastChecked := 7\<rparr>),
          (2, example_link2)],
       currentLinkId = 3\<rparr>,
      JsonLink 200 (example_link1\<lparr>url := js ''https://pay.example/new'',
                      status := js ''active'', errorCode := None, lastChecked := 7\<rparr>),
      [Renew (example_link1\<lparr>url := js ''https://pay.example/new'',
                status := js ''active'', errorCode := None, lastChecked := 7\<rparr>)]) \<and>
   transactionNo (example_link1\<lparr>url := js ''https://pay.example/new'',
                    status := js ''active'', errorCode := None, lastChecked := 7\<rparr>)
     = Some (js ''12345'') \<and>
   amountAED (example_link1\<lparr>url := js ''https://pay.example/new'',
                status := js ''active'', errorCode := None, lastChecked := 7\<rparr>)
     = Some (js ''100.00'')"
  by (simp add: renew_route_def store_defs js_def)

text \<open>
  C2 (amended). When the page of a link of the caller is fetched and holds neither the
  failure marker nor a transaction token nor an amount token, \<open>parsePage\<close> throws the
  \<open>PaymentLinkError\<close> with code \<open>INVALID_FORMAT\<close>, and the check route stores nothing:
  the storage is as it was, nothing is broadcast, and the reply is the error, status
  400, with that code. The code differs from the error code stored for a page with the
  failure marker.
\<close>

theorem malformed_page_not_stored:
  assumes "find (\<lambda>l. link_id l = i) (getPaymentLinks st uid) = Some link"
    and "fetch (url link) = FetchResponse True statusText (Inr page)"
    and "\<not> str_includes page failure_marker"
    and "\<not> (\<exists>t. transaction_token page t)"
    and "\<not> (\<exists>t. amount_token page t)"
  shows "parsePage page = Inl (AppErr (PaymentLinkError invalid_format_message (js ''INVALID_FORMAT''))) \<and>
         check_route fetch now (Some uid) i st =
           (st, JsonError 400 invalid_format_message (Some (js ''INVALID_FORMAT'')), []) \<and>
         js ''INVALID_FORMAT'' \<noteq> generic_error_code"
proof -
  have none: "regex_search transaction_rx page = None" "regex_search amount_rx page = None"
    using assms(4,5) by (simp_all add: transaction_search_iff amount_search_iff)
  have p: "parsePage page =
             Inl (AppErr (PaymentLinkError invalid_format_message (js ''INVALID_FORMAT'')))"
    using assms(3) none by (simp add: parsePage_def)
  have c: "checkPaymentPage fetch (url link) =
             Inl (AppErr (PaymentLinkError invalid_format_message (js ''INVALID_FORMAT'')))"
    using assms(2) p
    by (simp add: checkPaymentPage_def check_catch_def is_PaymentLinkError_def PaymentLinkError_def)
  have r: "check_route fetch now (Some uid) i st =
           (st, JsonError 400 invalid_format_message (Some (js ''INVALID_FORMAT'')), [])"
    using assms(1) c
    by (simp add: check_route_def error_reply_def handleError_def PaymentLinkError_def)
  have d: "js ''INVALID_FORMAT'' \<noteq> generic_error_code"
    by (simp add: js_def generic_error_code_def)
  show ?thesis using p r d by simp
qed

theorem malformed_page_not_stored_witness:
  "parsePage (js ''Welcome'') =
     Inl (AppErr (PaymentLinkError invalid_format_message (js ''INVALID_FORMAT''))) \<and>
   check_route example_fetch 7 (Some 2) 2 example_storage =
     (example_storage, JsonError 400 invalid_format_message (Some (js ''INVALID_FORMAT'')), [])"
proof -
  have f: "find (\<lambda>l. link_id l = 2) (getPaymentLinks example_storage 2) = Some example_link2"
    by (simp add: store_defs)
  have e: "example_fetch (url example_link2) = FetchResponse True (js ''OK'') (Inr (js ''Welcome''))"
    by (simp add: example_fetch_def)
  have m: "\<not> str_includes (js ''Welcome'') failure_marker"
    by (simp add: parse_defs)
  have t: "\<not> (\<exists>t. transaction_token (js ''Welcome'') t)"
    by (simp add: transaction_search_iff parse_defs)
  have a: "\<not> (\<exists>t. amount_token (js ''Welcome'') t)"
    by (simp add: amount_search_iff parse_defs)
  from malformed_page_not_stored
         [of 2 example_storage 2 example_link2 example_fetch "js ''OK''" "js ''Welcome''" 7]
       f e m t a
  show ?thesis by simp
qed

text \<open>
  C2 as the specification has it (the link is stored with status \<open>error\<close>) fails on link
  2 of the example storage: after the check of its unreadable page the storage is
  unchanged and the link is still \<open>active\<close>, with no error code.
\<close>

theorem malformed_page_counterexample:
  "check_route example_fetch 7 (Some 2) 2 example_storage =
     (example_storage, JsonError 400 invalid_format_message (Some (js ''INVALID_FORMAT'')), []) \<and>
   map_get (paymentLinks example_storage) 2 = Some example_link2 \<and>
   status example_link2 = js ''active'' \<and>
   status example_link2 \<noteq> js ''error'' \<and>
   errorCode example_link2 = None"
  by (simp add: check_route_def checkPaymentPage_def check_catch_def is_PaymentLinkError_def
        error_reply_def handleError_def example_fetch_def store_defs parse_defs)

text \<open>
  C3. The specification has no reconnection scheduled after the view is closed while
  the connection is open. The cleanup calls \<open>close()\<close> and clears \<open>ws\<close>, but the socket
  keeps its \<open>onclose\<close> handler. Evaluated: the view is mounted, the socket opens (the
  counter is 0), the view is closed; when the browser then reports the socket closed,
  the handler schedules a reconnection after 1000 ms, and when that timer fires a new
  socket is made.
\<close>

theorem reconnect_after_shutdown:
  "run client_init [Mount, Opened 0, Unmount] =
     Some \<lparr>sockets = [CLOSING], ws = None, reconnectAttempts = 0, timers = []\<rparr> \<and>
   run client_init [Mount, Opened 0, Unmount, Closed 0] =
     Some \<lparr>sockets = [CLOSED], ws = None, reconnectAttempts = 1, timers = [1000]\<rparr> \<and>
   run client_init [Mount, Opened 0, Unmount, Closed 0, TimerFired 0] =
     Some \<lparr>sockets = [CLOSED, CONNECTING], ws = Some 1, reconnectAttempts = 1, timers = []\<rparr>"
  by (simp add: client_defs)

text \<open>
  C4 (amended). \<open>getPaymentLinks\<close>, \<open>deletePaymentLink\<close> and \<open>archivePaymentLink\<close> are
  scoped by owner: the list holds exactly the stored links of the caller, and a delete or
  an archive succeeds exactly when the link is stored and belongs to the caller. Both
  fail with one and the same error, \<open>Payment link not found or unauthorized\<close>, whether
  the link is missing or belongs to someone else. \<open>updatePaymentLinkStatus\<close> and
  \<open>updatePaymentLinkUrl\<close> take no owner: they fail exactly when the link is missing,
  with \<open>Payment link not found\<close>.
\<close>

theorem storage_owner_scope:
  "(\<forall>l \<in> set (getPaymentLinks st uid). userId l = uid) \<and>
   set (getPaymentLinks st uid) = {l \<in> snd ` set (paymentLinks st). userId l = uid} \<and>
   ((\<exists>st'. deletePaymentLink st i uid = Inr st') \<longleftrightarrow>
      (\<exists>l. map_get (paymentLinks st) i = Some l \<and> userId l = uid)) \<and>
   (deletePaymentLink st i uid = Inl e \<longleftrightarrow>
      e = PlainError (js ''Payment link not found or unauthorized'') \<and>
      (map_get (paymentLinks st) i = None \<or>
       (\<exists>l. map_get (paymentLinks st) i = Some l \<and> userId l \<noteq> uid))) \<and>
   ((\<exists>r. archivePaymentLink st i uid = Inr r) \<longleftrightarrow>
      (\<exists>l. map_get (paymentLinks st) i = Some l \<and> userId l = uid)) \<and>
   (archivePaymentLink st i uid = Inl e \<longleftrightarrow>
      e = PlainError (js ''Payment link not found or unauthorized'') \<and>
      (map_get (paymentLinks st) i = None \<or>
       (\<exists>l. map_get (paymentLinks st) i = Some l \<and> userId l \<noteq> uid))) \<and>
   (updatePaymentLinkStatus st now i s ec tn am = Inl e \<longleftrightarrow>
      e = PlainError (js ''Payment link not found'') \<and> map_get (paymentLinks st) i = None) \<and>
   (updatePaymentLinkUrl st i u = Inl e \<longleftrightarrow>
      e = PlainError (js ''Payment link not found'') \<and> map_get (paymentLinks st) i = None)"
proof (intro conjI)
  show "\<forall>l \<in> set (getPaymentLinks st uid). userId l = uid"
    by (simp add: getPaymentLinks_def)
  show "set (getPaymentLinks st uid) = {l \<in> snd ` set (paymentLinks st). userId l = uid}"
    by (auto simp: getPaymentLinks_def)
  show "(\<exists>st'. deletePaymentLink st i uid = Inr st') \<longleftrightarrow>
          (\<exists>l. map_get (paymentLinks st) i = Some l \<and> userId l = uid)"
    by (auto simp: deletePaymentLink_def split: option.splits)
  show "deletePaymentLink st i uid = Inl e \<longleftrightarrow>
          e = PlainError (js ''Payment link not found or unauthorized'') \<and>
          (map_get (paymentLinks st) i = None \<or>
           (\<exists>l. map_get (paymentLinks st) i = Some l \<and> userId l \<noteq> uid))"
    by (auto simp: deletePaymentLink_def split: option.splits)
  show "(\<exists>r. archivePaymentLink st i uid = Inr r) \<longleftrightarrow>
          (\<exists>l. map_get (paymentLinks st) i = Some l \<and> userId l = uid)"
    by (auto simp: archivePaymentLink_def Let_def split: option.splits)
  show "archivePaymentLink st i uid = Inl e \<longleftrightarrow>
          e = PlainError (js ''Payment link not found or unauthorized'') \<and>
          (map_get (paymentLinks st) i = None \<or>
           (\<exists>l. map_get (paymentLinks st) i = Some l \<and> userId l \<noteq> uid))"
    by (auto simp: archivePaymentLink_def Let_def split: option.splits)
  show "updatePaymentLinkStatus st now i s ec tn am = Inl e \<longleftrightarrow>
          e = PlainError (js ''Payment link not found'') \<and> map_get (paymentLinks st) i = None"
    by (auto simp: updatePaymentLinkStatus_def Let_def split: option.splits)
  show "updatePaymentLinkUrl st i u = Inl e \<longleftrightarrow>
          e = PlainError (js ''Payment link not found'') \<and> map_get (paymentLinks st) i = None"
    by (auto simp: updatePaymentLinkUrl_def Let_def split: option.splits)
qed

theorem storage_owner_scope_witness:
  "getPaymentLinks example_storage 1 = [example_link1] \<and>
   deletePaymentLink example_storage 1 1 =
     Inr \<lparr>paymentLinks = [(2, example_link2)], currentLinkId = 3\<rparr> \<and>
   archivePaymentLink example_storage 2 1 =
     Inl (PlainError (js ''Payment link not found or unauthorized'')) \<and>
   updatePaymentLinkUrl example_storage 2 (js ''https://pay.example/c'') =
     Inr (\<lparr>paymentLinks = [(1, example_link1),
                            (2, example_link2\<lparr>url := js ''https://pay.example/c''\<rparr>)],
           currentLinkId = 3\<rparr>,
          example_link2\<lparr>url := js ''https://pay.example/c''\<rparr>) \<and>
   updatePaymentLinkUrl example_storage 99 (js ''https://pay.example/c'') =
     Inl (PlainError (js ''Payment link not found''))"
  using storage_owner_scope
    [of example_storage 1 1 "PlainError (js ''Payment link not found or unauthorized'')"
        0 "js ''active''" None None None "js ''https://pay.example/c''"]
  by (simp add: store_defs deletePaymentLink_def archivePaymentLink_def map_delete_def)

text \<open>
  C4 as the specification has it (the two failures can be told apart) fails for user 1
  on the example storage: deleting or archiving link 2, which belongs to user 2, and
  link 99, which does not exist, raise the same error.
\<close>

theorem storage_errors_counterexample:
  "map_get (paymentLinks example_storage) 2 = Some example_link2 \<and>
   userId example_link2 = 2 \<and>
   map_get (paymentLinks example_storage) 99 = None \<and>
   deletePaymentLink example_storage 2 1 =
     Inl (PlainError (js ''Payment link not found or unauthorized'')) \<and>
   deletePaymentLink example_storage 99 1 =
     Inl (PlainError (js ''Payment link not found or unauthorized'')) \<and>
   archivePaymentLink example_storage 2 1 =
     Inl (PlainError (js ''Payment link not found or unauthorized'')) \<and>
   archivePaymentLink example_storage 99 1 =
     Inl (PlainError (js ''Payment link not found or unauthorized''))"
  by (simp add: store_defs deletePaymentLink_def archivePaymentLink_def)

text \<open>
  C5 (amended). The counter \<open>reconnectAttempts\<close> counts reconnection attempts: the
  connection made when the view is mounted is not one of them. From a disconnected
  client with counter 0 (whatever sockets it made before), when the first connection
  and then \<open>n \<le> 5\<close> reconnection attempts have failed at once, the client is
  disconnected (\<open>ws\<close> is \<open>null\<close>, every socket of the run is closed) and, while
  \<open>n < 5\<close>, exactly one timer is pending: the one of reconnection attempt \<open>n + 1\<close>, with
  delay \<open>RECONNECT_DELAY * 2 ^ n\<close>, that is 1000, 2000, 4000, 8000 and 16000 ms for the
  attempts 1 to 5. After the fifth reconnection attempt has failed (six failed
  connections in all) no timer is pending.
\<close>

theorem backoff_five_attempts:
  assumes "n \<le> 5"
  shows "run \<lparr>sockets = ss, ws = None, reconnectAttempts = 0, timers = []\<rparr>
           (failing_attempts (length ss) n) =
         Some \<lparr>sockets = ss @ replicate (Suc n) CLOSED, ws = None,
               reconnectAttempts = min (Suc n) 5,
               timers = (if n < 5 then [RECONNECT_DELAY * 2 ^ n] else [])\<rparr>"
  using assms
proof (induction n)
  case 0
  show ?case
    by (simp add: step_def connectWebSocket_def onclose_def ws_readyState_def
          MAX_RECONNECT_ATTEMPTS_def RECONNECT_DELAY_def Let_def)
next
  case (Suc n)
  then have n: "n < 5" by simp
  have before: "run \<lparr>sockets = ss, ws = None, reconnectAttempts = 0, timers = []\<rparr>
           (failing_attempts (length ss) n) =
         Some \<lparr>sockets = ss @ replicate (Suc n) CLOSED, ws = None,
               reconnectAttempts = Suc n, timers = [RECONNECT_DELAY * 2 ^ n]\<rparr>"
    using Suc.IH n by simp
  have upd: "(ss @ CLOSED # replicate n CLOSED @ [CONNECTING])[Suc (length ss + n) := CLOSED]
             = ss @ CLOSED # CLOSED # replicate n CLOSED"
    using replicate_snoc_update [of ss "Suc n" CLOSED CONNECTING] by simp
  have nth: "(ss @ CLOSED # replicate n CLOSED @ [CONNECTING]) ! Suc (length ss + n) = CONNECTING"
    by (simp add: nth_append nth_Cons')
  show ?case
    using n upd nth
    by (simp add: run_append before step_def connectWebSocket_def onclose_def ws_readyState_def
          MAX_RECONNECT_ATTEMPTS_def Let_def)
qed

theorem backoff_five_attempts_witness:
  "(5::nat) \<le> 5 \<and>
   run client_init
     [Mount, Closed 0, TimerFired 0, Closed 1, TimerFired 0, Closed 2, TimerFired 0, Closed 3,
      TimerFired 0, Closed 4, TimerFired 0, Closed 5] =
   Some \<lparr>sockets = [CLOSED, CLOSED, CLOSED, CLOSED, CLOSED, CLOSED], ws = None,
         reconnectAttempts = 5, timers = []\<rparr>"
  using backoff_five_attempts [of 5 "[]"]
  by (simp add: client_init_def eval_nat_numeral)

text \<open>
  C5 as the specification has it (five failed connection attempts, then nothing
  scheduled) fails: after five connections that failed at once, the first one included,
  the timer of the fifth reconnection attempt is pending with delay 16000 ms, and when
  it fires a sixth socket is made.
\<close>

theorem five_failures_counterexample:
  "run client_init
     [Mount, Closed 0, TimerFired 0, Closed 1, TimerFired 0, Closed 2, TimerFired 0, Closed 3,
      TimerFired 0, Closed 4] =
   Some \<lparr>sockets = [CLOSED, CLOSED, CLOSED, CLOSED, CLOSED], ws = None,
         reconnectAttempts = 5, timers = [16000]\<rparr> \<and>
   run client_init
     [Mount, Closed 0, TimerFired 0, Closed 1, TimerFired 0, Closed 2, TimerFired 0, Closed 3,
      TimerFired 0, Closed 4, TimerFired 0] =
   Some \<lparr>sockets = [CLOSED, CLOSED, CLOSED, CLOSED, CLOSED, CONNECTING], ws = Some 5,
         reconnectAttempts = 5, timers = []\<rparr>"
  by (simp add: client_defs)

text \<open>
  C6. A page that holds the failure marker parses to the failed result with the fixed
  error code, whatever else it holds; and so does the probe of a page that was fetched
  with such a text. Nothing is assumed about tokens: the page of the witness also holds
  an amount token.
\<close>

theorem failure_marker_wins:
  assumes "str_includes page failure_marker"
  shows "parsePage page =
           Inr \<lparr>isActive = False, transactionNo_r = None, amountAED_r = None,
                errorCode_r = Some generic_error_code\<rparr> \<and>
         (\<forall>fetch u statusText.
            fetch u = FetchResponse True statusText (Inr page) \<longrightarrow>
            checkPaymentPage fetch u =
              Inr \<lparr>isActive = False, transactionNo_r = None, amountAED_r = None,
                   errorCode_r = Some generic_error_code\<rparr>)"
  using assms by (simp add: parsePage_def checkPaymentPage_def)

theorem failure_marker_wins_witness:
  "str_includes (js ''Sorry, something went wrong. Amount 5.00 AED'') failure_marker \<and>
   regex_search amount_rx (js ''Sorry, something went wrong. Amount 5.00 AED'')
     = Some [js ''5.00''] \<and>
   parsePage (js ''Sorry, something went wrong. Amount 5.00 AED'') =
     Inr \<lparr>isActive = False, transactionNo_r = None, amountAED_r = None,
          errorCode_r = Some generic_error_code\<rparr>"
  using failure_marker_wins [of "js ''Sorry, something went wrong. Amount 5.00 AED''"]
  by (simp add: parse_defs)

text \<open>
  C7 (amended). Tokens are what the two patterns of the code match: a transaction token
  is the whole run of digits after \<open>SP Transaction No\<close> and white space; an amount
  token is the run of digits, commas and full stops after \<open>Amount\<close> and white space and
  before \<open>AED\<close>; of several, the leftmost. A page without the failure marker that holds
  a transaction token or an amount token parses to an active result with no error code.
  The transaction number of the result is the transaction token of the page and nothing
  else, and the result has none when the page has none; likewise for the amount.
\<close>

theorem tokens_give_success:
  assumes "\<not> str_includes page failure_marker"
    and "(\<exists>t. transaction_token page t) \<or> (\<exists>t. amount_token page t)"
  shows "\<exists>r. parsePage page = Inr r \<and> isActive r \<and> errorCode_r r = None \<and>
           (\<forall>t. transactionNo_r r = Some t \<longleftrightarrow> transaction_token page t) \<and>
           (\<forall>t. amountAED_r r = Some t \<longleftrightarrow> amount_token page t)"
proof -
  let ?tm = "regex_search transaction_rx page"
  let ?am = "regex_search amount_rx page"
  have some: "\<not> (?tm = None \<and> ?am = None)"
    using assms(2) by (simp add: transaction_search_iff amount_search_iff)
  then have p: "parsePage page =
      Inr \<lparr>isActive = True, transactionNo_r = group1 ?tm, amountAED_r = group1 ?am,
           errorCode_r = None\<rparr>"
    using assms(1) by (simp add: parsePage_def Let_def)
  show ?thesis
    using p by (simp add: transaction_search_token amount_search_token)
qed

theorem tokens_give_success_witness:
  "\<not> str_includes (js ''SP Transaction No 12345 ... Amount 100.00 AED'') failure_marker \<and>
   transaction_token (js ''SP Transaction No 12345 ... Amount 100.00 AED'') (js ''12345'') \<and>
   amount_token (js ''SP Transaction No 12345 ... Amount 100.00 AED'') (js ''100.00'') \<and>
   \<not> transaction_token (js ''SP Transaction No 12345 ... Amount 100.00 AED'') (js ''1'') \<and>
   parsePage (js ''SP Transaction No 12345 ... Amount 100.00 AED'') =
     Inr \<lparr>isActive = True, transactionNo_r = Some (js ''12345''),
          amountAED_r = Some (js ''100.00''), errorCode_r = None\<rparr>"
proof -
  let ?page = "js ''SP Transaction No 12345 ... Amount 100.00 AED''"
  have p: "parsePage ?page =
     Inr \<lparr>isActive = True, transactionNo_r = Some (js ''12345''),
          amountAED_r = Some (js ''100.00''), errorCode_r = None\<rparr>"
    by (simp add: parse_defs)
  have m: "\<not> str_includes ?page failure_marker"
    by (simp add: parse_defs)
  have gt: "group1 (regex_search transaction_rx ?page) = Some (js ''12345'')"
    by (simp add: parse_defs)
  have ga: "group1 (regex_search amount_rx ?page) = Some (js ''100.00'')"
    by (simp add: parse_defs)
  have tt: "transaction_token ?page (js ''12345'')"
    using gt by (simp only: transaction_search_token)
  have ta: "amount_token ?page (js ''100.00'')"
    using ga by (simp only: amount_search_token)
  have "js ''12345'' \<noteq> js ''1''"
    by (simp add: js_def)
  then have nt: "\<not> transaction_token ?page (js ''1'')"
    using gt transaction_search_token [of ?page "js ''1''"] by simp
  have h: "(\<exists>t. transaction_token ?page t) \<or> (\<exists>t. amount_token ?page t)"
    using tt by blast
  from tokens_give_success [OF m h] tt ta nt p m show ?thesis
    by blast
qed

text \<open>
  C7 as the specification has it (a decimal amount before the currency label is a
  success token) fails on the page \<open>Paid 100.00 AED\<close>: it has no failure marker and the
  decimal number \<open>100.00\<close> stands before \<open>AED\<close>, but the label \<open>Amount\<close> is missing, and
  the parse throws the error \<open>INVALID_FORMAT\<close>.
\<close>

theorem decimal_amount_counterexample:
  "\<not> str_includes (js ''Paid 100.00 AED'') failure_marker \<and>
   spec_amount_token (js ''Paid 100.00 AED'') (js ''100.00'') \<and>
   parsePage (js ''Paid 100.00 AED'') =
     Inl (AppErr (PaymentLinkError invalid_format_message (js ''INVALID_FORMAT'')))"
proof -
  have d: "decimal_number (js ''100.00'')"
    by (simp add: decimal_number_def js_def is_digit_def)
  have "js ''Paid 100.00 AED'' = js ''Paid '' @ js ''100.00'' @ js '' '' @ js ''AED'' @ []"
    by (simp add: js_def)
  moreover have "list_all is_space (js '' '')"
    by (simp add: js_def is_space_def)
  ultimately have s: "spec_amount_token (js ''Paid 100.00 AED'') (js ''100.00'')"
    unfolding spec_amount_token_def using d by blast
  have m: "\<not> str_includes (js ''Paid 100.00 AED'') failure_marker"
    by (simp add: parse_defs)
  have p: "parsePage (js ''Paid 100.00 AED'') =
     Inl (AppErr (PaymentLinkError invalid_format_message (js ''INVALID_FORMAT'')))"
    by (simp add: parse_defs)
  show ?thesis using m s p by simp
qed

text \<open>
  C8. Applying \<open>updatePaymentLinkStatus\<close> a second time with the same status, error
  code, transaction number and amount (the four values an outcome of the probe gives)
  succeeds and gives the link of the first application with only \<open>lastChecked\<close> set
  anew: status, error code, transaction number and amount are the same, the link is
  stored under its id, and no other entry of the map changes.
\<close>

theorem status_update_idempotent:
  assumes "updatePaymentLinkStatus st t1 i s ec tn am = Inr (st1, l1)"
  shows "\<exists>st2 l2.
           updatePaymentLinkStatus st1 t2 i s ec tn am = Inr (st2, l2) \<and>
           status l2 = status l1 \<and> errorCode l2 = errorCode l1 \<and>
           transactionNo l2 = transactionNo l1 \<and> amountAED l2 = amountAED l1 \<and>
           l2 = l1\<lparr>lastChecked := t2\<rparr> \<and>
           map_get (paymentLinks st2) i = Some l2 \<and>
           (\<forall>k. k \<noteq> i \<longrightarrow> map_get (paymentLinks st2) k = map_get (paymentLinks st1) k) \<and>
           map fst (paymentLinks st2) = map fst (paymentLinks st1)"
  using assms
  by (auto simp: updatePaymentLinkStatus_def map_get_map_set map_set_keys nullish_def Let_def
           split: option.splits)

theorem status_update_idempotent_witness:
  "updatePaymentLinkStatus example_storage 5 2 (js ''active'') None (Some (js ''777'')) None =
     Inr (\<lparr>paymentLinks =
             [(1, example_link1),
              (2, example_link2\<lparr>lastChecked := 5, transactionNo := Some (js ''777'')\<rparr>)],
           currentLinkId = 3\<rparr>,
          example_link2\<lparr>lastChecked := 5, transactionNo := Some (js ''777'')\<rparr>) \<and>
   updatePaymentLinkStatus
     \<lparr>paymentLinks =
        [(1, example_link1),
         (2, example_link2\<lparr>lastChecked := 5, transactionNo := Some (js ''777'')\<rparr>)],
      currentLinkId = 3\<rparr>
     9 2 (js ''active'') None (Some (js ''777'')) None =
     Inr (\<lparr>paymentLinks =
             [(1, example_link1),
              (2, example_link2\<lparr>lastChecked := 9, transactionNo := Some (js ''777'')\<rparr>)],
           currentLinkId = 3\<rparr>,
          example_link2\<lparr>lastChecked := 9, transactionNo := Some (js ''777'')\<rparr>)"
  using status_update_idempotent
    [of example_storage 5 2 "js ''active''" None "Some (js ''777'')" None
        "\<lparr>paymentLinks =
            [(1, example_link1),
             (2, example_link2\<lparr>lastChecked := 5, transactionNo := Some (js ''777'')\<rparr>)],
          currentLinkId = 3\<rparr>"
        "example_link2\<lparr>lastChecked := 5, transactionNo := Some (js ''777'')\<rparr>" 9]
  by (simp add: store_defs js_def)

text \<open>
  C9. A link of the view's list that is archived is not among the links the interval
  calls \<open>checkStatus\<close> for; and when no other entry of the list has its id, its id is
  not among the ids the calls are made with.
\<close>

theorem archived_never_selected:
  assumes "Some l \<in> set links" and "archived l"
  shows "l \<notin> set (tick_selected links) \<and>
         ((\<forall>l'. Some l' \<in> set links \<longrightarrow> link_id l' = link_id l \<longrightarrow> l' = l) \<longrightarrow>
            link_id l \<notin> set (tick links))"
proof (intro conjI impI)
  show "l \<notin> set (tick_selected links)"
    using assms(2) tick_selected_sound by blast
next
  assume uniq: "\<forall>l'. Some l' \<in> set links \<longrightarrow> link_id l' = link_id l \<longrightarrow> l' = l"
  show "link_id l \<notin> set (tick links)"
  proof
    assume "link_id l \<in> set (tick links)"
    then obtain l' where l': "l' \<in> set (tick_selected links)" "link_id l' = link_id l"
      by (auto simp: tick_def)
    from l'(1) have "Some l' \<in> set links" "\<not> archived l'"
      using tick_selected_sound by blast+
    with uniq l'(2) assms(2) show False by blast
  qed
qed

theorem archived_never_selected_witness:
  "Some (example_link2\<lparr>archived := True\<rparr>)
     \<in> set [Some example_link1, Some (example_link2\<lparr>archived := True\<rparr>), None] \<and>
   archived (example_link2\<lparr>archived := True\<rparr>) \<and>
   example_link2\<lparr>archived := True\<rparr>
     \<notin> set (tick_selected [Some example_link1, Some (example_link2\<lparr>archived := True\<rparr>), None]) \<and>
   link_id (example_link2\<lparr>archived := True\<rparr>)
     \<notin> set (tick [Some example_link1, Some (example_link2\<lparr>archived := True\<rparr>), None])"
  using archived_never_selected
    [of "example_link2\<lparr>archived := True\<rparr>"
        "[Some example_link1, Some (example_link2\<lparr>archived := True\<rparr>), None]"]
  by (simp add: example_link1_def example_link2_def)

text \<open>
  C10. On a link that is in the map, \<open>updatePaymentLinkUrl\<close> succeeds and gives the link
  with its \<open>url\<close> replaced and every other field as it was: status, error code,
  transaction number, amount display, last check, archived flag, owner, amount and id.
  That link is stored under the id, no other entry of the map changes, and the order of
  the keys and the id counter stay.
\<close>

theorem updatePaymentLinkUrl_changes_only_url:
  assumes "map_get (paymentLinks st) i = Some link"
  shows "\<exists>st' updated.
           updatePaymentLinkUrl st i u = Inr (st', updated) \<and>
           updated = link\<lparr>url := u\<rparr> \<and>
           status updated = status link \<and> errorCode updated = errorCode link \<and>
           transactionNo updated = transactionNo link \<and> amountAED updated = amountAED link \<and>
           lastChecked updated = lastChecked link \<and> archived updated = archived link \<and>
           userId updated = userId link \<and> amount updated = amount link \<and>
           link_id updated = link_id link \<and>
           map_get (paymentLinks st') i = Some updated \<and>
           (\<forall>k. k \<noteq> i \<longrightarrow> map_get (paymentLinks st') k = map_get (paymentLinks st) k) \<and>
           map fst (paymentLinks st') = map fst (paymentLinks st) \<and>
           currentLinkId st' = currentLinkId st"
  using assms by (simp add: updatePaymentLinkUrl_def map_get_map_set map_set_keys Let_def)

theorem updatePaymentLinkUrl_changes_only_url_witness:
  "map_get (paymentLinks example_storage) 1 = Some example_link1 \<and>
   updatePaymentLinkUrl example_storage 1 (js ''https://pay.example/new'') =
     Inr (\<lparr>paymentLinks = [(1, example_link1\<lparr>url := js ''https://pay.example/new''\<rparr>),
                           (2, example_link2)], currentLinkId = 3\<rparr>,
          example_link1\<lparr>url := js ''https://pay.example/new''\<rparr>)"
  using updatePaymentLinkUrl_changes_only_url
          [of example_storage 1 example_link1 "js ''https://pay.example/new''"]
  by (simp add: example_storage_def map_get_def updatePaymentLinkUrl_def Let_def)

end
